theory Spec2Isabelle
  imports Main "HOL-Library.Word"
begin

section \<open>Strings of the host language\<close>

text \<open>
  The plugin is TypeScript: a string is a sequence of 16-bit code units, and \<open>trim\<close>,
  \<open>split\<close>, \<open>startsWith\<close>, \<open>includes\<close> and the regular expression of
  \<open>extractDoneSection\<close> all work on code units. A string literal of the source is written
  \<open>js ''...''\<close>. \<open>isWhiteSpace\<close> and \<open>isLineTerminator\<close> are the ECMAScript
  productions of these names: \<open>trim\<close> strips both at either end, and the pattern
  character \<open>.\<close> matches any code unit that is not a line terminator.
\<close>

type_synonym code_unit = "16 word"
type_synonym jstring = "code_unit list"

definition js :: "string \<Rightarrow> jstring" where
  "js s = map of_char s"

definition isLineTerminator :: "code_unit \<Rightarrow> bool" where
  "isLineTerminator c \<longleftrightarrow> c = 0x000A \<or> c = 0x000D \<or> c = 0x2028 \<or> c = 0x2029"

definition isWhiteSpace :: "code_unit \<Rightarrow> bool" where
  "isWhiteSpace c \<longleftrightarrow>
     c = 0x0009 \<or> c = 0x000B \<or> c = 0x000C \<or> c = 0x0020 \<or> c = 0x00A0 \<or> c = 0xFEFF \<or>
     c = 0x1680 \<or> (0x2000 \<le> c \<and> c \<le> 0x200A) \<or> c = 0x202F \<or> c = 0x205F \<or> c = 0x3000"

definition trimmable :: "code_unit \<Rightarrow> bool" where
  "trimmable c \<longleftrightarrow> isWhiteSpace c \<or> isLineTerminator c"

definition trim :: "jstring \<Rightarrow> jstring" where
  "trim s = rev (dropWhile trimmable (rev (dropWhile trimmable s)))"

text \<open>\<open>s.split(sep)\<close> for a separator of one code unit: the empty string gives one empty piece.\<close>

fun split_on :: "code_unit \<Rightarrow> jstring \<Rightarrow> jstring list" where
  "split_on sep [] = [[]]"
| "split_on sep (c # cs) =
     (if c = sep then [] # split_on sep cs
      else (case split_on sep cs of [] \<Rightarrow> [[c]] | l # ls \<Rightarrow> (c # l) # ls))"

definition startsWith :: "jstring \<Rightarrow> jstring \<Rightarrow> bool" where
  "startsWith s p \<longleftrightarrow> take (length p) s = p"

fun includes_str :: "jstring \<Rightarrow> jstring \<Rightarrow> bool" where
  "includes_str [] p = (p = [])"
| "includes_str (c # cs) p = (startsWith (c # cs) p \<or> includes_str cs p)"

text \<open>
  \<open>line.match(/\[\[(.*?)\]\]/)\<close>. \<open>lazy_capture\<close> is the group \<open>(.*?)\<close> followed by
  \<open>\]\]\<close>: the shortest run of non-terminator code units after which \<open>]]\<close> stands.
  \<open>match_here\<close> is one attempt of the pattern at the start of its argument, and
  \<open>match_wikilink\<close> tries the start positions from left to right; the result is the match
  array, the whole match at index 0 and the group at index 1, or \<open>None\<close> for \<open>null\<close>.
\<close>

fun lazy_capture :: "jstring \<Rightarrow> jstring option" where
  "lazy_capture [] = None"
| "lazy_capture (c # cs) =
     (if startsWith (c # cs) (js '']]'') then Some []
      else if isLineTerminator c then None
      else map_option ((#) c) (lazy_capture cs))"

definition match_here :: "jstring \<Rightarrow> jstring list option" where
  "match_here s =
     (if startsWith s (js ''[['') then
        (case lazy_capture (drop 2 s) of
           None \<Rightarrow> None
         | Some g \<Rightarrow> Some [js ''[['' @ g @ js '']]'', g])
      else None)"

fun match_wikilink :: "jstring \<Rightarrow> jstring list option" where
  "match_wikilink [] = None"
| "match_wikilink (c # cs) =
     (case match_here (c # cs) of
        Some m \<Rightarrow> Some m
      | None \<Rightarrow> match_wikilink cs)"

text \<open>
  The pattern stated by positions, to compare with \<open>match_wikilink\<close>: \<open>pattern_at line i n\<close>
  says that \<open>[[\<close> stands at position \<open>i\<close> of the line, that the \<open>n\<close> code units after it
  hold no line terminator (each is matched by \<open>.\<close>), and that \<open>]]\<close> follows them. The
  first match of the pattern is the one with the least \<open>i\<close> and, for this \<open>i\<close>, the least
  \<open>n\<close>.
\<close>

definition group_ok :: "jstring \<Rightarrow> nat \<Rightarrow> bool" where
  "group_ok s n \<longleftrightarrow>
     list_all (\<lambda>u. \<not> isLineTerminator u) (take n s) \<and> startsWith (drop n s) (js '']]'')"

definition pattern_at :: "jstring \<Rightarrow> nat \<Rightarrow> nat \<Rightarrow> bool" where
  "pattern_at line i n \<longleftrightarrow>
     startsWith (drop i line) (js ''[['') \<and> group_ok (drop (i + 2) line) n"


section \<open>Section extractor\<close>

record task =
  title :: jstring

record scan =
  isDoneSection :: bool
  tasks :: "task list"

text \<open>
  The \<open>for ... of\<close> loop of \<open>extractDoneSection\<close>: \<open>loop_body\<close> is one pass through the
  body on the loop's two variables, and says whether the loop goes on to the next line
  (after \<open>continue\<close> or at the end of the body) or leaves (\<open>break\<close>).
\<close>

datatype control = Next | Break

definition loop_body :: "scan \<Rightarrow> jstring \<Rightarrow> control \<times> scan" where
  "loop_body s line =
     (if trim line = js ''## Done'' then (Next, s\<lparr>isDoneSection := True\<rparr>)
      else if isDoneSection s \<and> startsWith line (js ''## '') then (Break, s)
      else if isDoneSection s \<and> includes_str line (js ''[['') then
        (case match_wikilink line of
           Some titleMatch \<Rightarrow> (Next, s\<lparr>tasks := tasks s @ [\<lparr>title = trim (titleMatch ! 1)\<rparr>]\<rparr>)
         | None \<Rightarrow> (Next, s))
      else (Next, s))"

fun for_of :: "scan \<Rightarrow> jstring list \<Rightarrow> scan" where
  "for_of s [] = s"
| "for_of s (line # rest) =
     (case loop_body s line of
        (Break, s') \<Rightarrow> s'
      | (Next, s') \<Rightarrow> for_of s' rest)"

definition extractDoneSection :: "jstring \<Rightarrow> task list" where
  "extractDoneSection content =
     tasks (for_of \<lparr>isDoneSection = False, tasks = []\<rparr> (split_on 0x000A content))"

text \<open>What one line adds to \<open>tasks\<close> when the loop body runs on it inside the section.\<close>

definition contribution :: "jstring \<Rightarrow> task list" where
  "contribution line = tasks (snd (loop_body \<lparr>isDoneSection = True, tasks = []\<rparr> line))"

section \<open>External action invocation\<close>

record eventData = task +
  content :: jstring

record settings =
  defaultScript :: jstring
  enableDoneHeadingTrigger :: bool
  targetFiles :: "jstring list"
  calendarName :: jstring

record plugin =
  settings :: settings
  lastDoneContent :: "task list"

record tfile =
  path :: jstring

text \<open>
  The collaborators: reading a file of the vault and running a shell command either return
  a string or throw. Every call of a collaborator, of \<open>console.error\<close> and of
  \<open>runAppleScript\<close> is recorded, in order, in a list of effects. One run of a handler is
  modelled from its call to its return, with no other handler interleaved.
\<close>

datatype error = Error string

record env =
  vault_read :: "tfile \<Rightarrow> error + jstring"
  execAsync :: "jstring \<Rightarrow> error + jstring"

datatype effect =
    VaultRead tfile
  | CallRunAppleScript jstring "eventData option"
  | ExecAsync jstring
  | ConsoleError string error

text \<open>Lines 141 to 144 of \<open>runAppleScript\<close>: the script that is handed to the shell.\<close>

definition compose_script :: "settings \<Rightarrow> jstring \<Rightarrow> eventData option \<Rightarrow> jstring" where
  \<open>compose_script st script ev =
     (case ev of
        Some eventData \<Rightarrow>
          (let calendarData =
                 js ''{calendarName:"'' @ calendarName st @ js ''", summary:"'' @ title eventData
                   @ js ''", description:"'' @ content eventData @ js ''"}''
           in js ''set input to '' @ calendarData @ js ''\<newline>'' @ script)
      | None \<Rightarrow> script)\<close>

definition runAppleScript ::
  "env \<Rightarrow> plugin \<Rightarrow> jstring \<Rightarrow> eventData option \<Rightarrow> (error + jstring) \<times> effect list" where
  "runAppleScript e p script ev =
     (let script' = compose_script (settings p) script ev;
          command = js ''osascript -e '' @ [0x0027] @ script' @ [0x0027]
      in (case execAsync e command of
            Inr stdout \<Rightarrow> (Inr stdout, [CallRunAppleScript script ev, ExecAsync command])
          | Inl err \<Rightarrow>
              (Inl err,
               [CallRunAppleScript script ev, ExecAsync command,
                ConsoleError ''Error executing AppleScript:'' err])))"

section \<open>Change detector and dispatcher\<close>

text \<open>An array is an object, and every object is truthy: \<open>if (doneData)\<close> always holds.\<close>

definition truthy_array :: "'a list \<Rightarrow> bool" where
  "truthy_array xs = True"

text \<open>
  The body of the \<open>try\<close> of \<open>handleFileChange\<close>: an exception leaves it at once, so the
  assignment to \<open>lastDoneContent\<close> after a failed \<open>await\<close> is not reached. The index
  \<open>doneData.length - 1\<close> is read only when \<open>doneData\<close> is longer than the stored list,
  so it is in range.
\<close>

definition try_block :: "env \<Rightarrow> tfile \<Rightarrow> plugin \<Rightarrow> (error + unit) \<times> plugin \<times> effect list" where
  "try_block e file p =
     (case vault_read e file of
        Inl err \<Rightarrow> (Inl err, p, [VaultRead file])
      | Inr contents \<Rightarrow>
          (let doneData = extractDoneSection contents in
           if truthy_array doneData then
             (if length doneData > length (lastDoneContent p) then
                (let latestDone = doneData ! (length doneData - 1) in
                 case runAppleScript e p (defaultScript (settings p))
                        (Some \<lparr>title = title latestDone, content = title latestDone\<rparr>) of
                   (Inl err, fx) \<Rightarrow> (Inl err, p, VaultRead file # fx)
                 | (Inr stdout, fx) \<Rightarrow>
                     (Inr (), p\<lparr>lastDoneContent := doneData\<rparr>, VaultRead file # fx))
              else (Inr (), p\<lparr>lastDoneContent := doneData\<rparr>, [VaultRead file]))
           else (Inr (), p, [VaultRead file])))"

definition handleFileChange :: "env \<Rightarrow> tfile \<Rightarrow> plugin \<Rightarrow> (error + unit) \<times> plugin \<times> effect list" where
  "handleFileChange e file p =
     (if path file \<notin> set (targetFiles (settings p)) then (Inr (), p, [])
      else
        (case try_block e file p of
           (Inl error, p', fx) \<Rightarrow>
             (Inr (), p', fx @ [ConsoleError ''Error processing file change:'' error])
         | (Inr u, p', fx) \<Rightarrow> (Inr u, p', fx)))"

text \<open>The callback registered for the vault's \<open>modify\<close> event.\<close>

definition on_modify :: "env \<Rightarrow> tfile \<Rightarrow> plugin \<Rightarrow> (error + unit) \<times> plugin \<times> effect list" where
  "on_modify e file p =
     (if enableDoneHeadingTrigger (settings p) then handleFileChange e file p
      else (Inr (), p, []))"

text \<open>Projections of the list of effects.\<close>

definition dispatches :: "effect list \<Rightarrow> eventData list" where
  "dispatches fx = concat (map (\<lambda>x. case x of CallRunAppleScript _ (Some ev) \<Rightarrow> [ev] | _ \<Rightarrow> []) fx)"

definition execs :: "effect list \<Rightarrow> jstring list" where
  "execs fx = concat (map (\<lambda>x. case x of ExecAsync c \<Rightarrow> [c] | _ \<Rightarrow> []) fx)"

definition DEFAULT_SETTINGS :: settings where
  "DEFAULT_SETTINGS =
     \<lparr>defaultScript = js [], enableDoneHeadingTrigger = True, targetFiles = [],
      calendarName = js ''Logs''\<rparr>"

subsection \<open>Example inputs\<close>

definition board_settings :: settings where
  "board_settings =
     DEFAULT_SETTINGS\<lparr>defaultScript := js ''say input'', targetFiles := [js ''board.md'']\<rparr>"

definition board_file :: tfile where
  "board_file = \<lparr>path = js ''board.md''\<rparr>"

definition board_text :: jstring where
  "board_text = js ''## Done\<newline>[[A]]\<newline>[[B]]\<newline>[[C]]''"

definition env_ok :: env where
  "env_ok = \<lparr>vault_read = (\<lambda>f. Inr board_text), execAsync = (\<lambda>c. Inr (js []))\<rparr>"

definition env_exec_fails :: env where
  "env_exec_fails =
     \<lparr>vault_read = (\<lambda>f. Inr board_text), execAsync = (\<lambda>c. Inl (Error ''exit status 1''))\<rparr>"

definition env_read_fails :: env where
  "env_read_fails =
     \<lparr>vault_read = (\<lambda>f. Inl (Error ''ENOENT'')), execAsync = (\<lambda>c. Inr (js []))\<rparr>"

definition line_padded :: jstring where
  "line_padded = js ''- [[ A ]] [[B]]''"

definition line_cr :: jstring where
  "line_cr = js ''[[a'' @ [0x000D] @ js '']] [[b]] [[c]]''"

definition line_cr_only :: jstring where
  "line_cr_only = js ''[[a'' @ [0x000D] @ js '']]''"


section \<open>Lemmas about the string operations and the scan\<close>

text \<open>A split never gives the empty list, so the first case of \<open>split_on\<close>'s inner
  \<open>case\<close> is never taken.\<close>

lemma split_on_nonempty: "split_on sep s \<noteq> []"
  by (induction s) (auto split: list.splits)

lemma mem_dropWhile: "x \<in> set xs \<Longrightarrow> \<not> P x \<Longrightarrow> x \<in> set (dropWhile P xs)"
  by (induction xs) auto

lemma mem_trim: "x \<in> set s \<Longrightarrow> \<not> trimmable x \<Longrightarrow> x \<in> set (trim s)"
  unfolding trim_def by (simp add: mem_dropWhile)

lemma startsWith_mem: "startsWith s (a # p) \<Longrightarrow> a \<in> set s"
  unfolding startsWith_def by (cases s) auto

lemma includes_str_mem: "includes_str s (a # p) \<Longrightarrow> a \<in> set s"
  by (induction s) (auto dest: startsWith_mem)

lemma bracket_not_trimmable: "\<not> trimmable 0x005B"
  by (simp add: trimmable_def isWhiteSpace_def isLineTerminator_def)

lemma marker_no_link:
  assumes "trim l = js ''## Done''"
  shows "\<not> includes_str l (js ''[['')"
proof
  assume "includes_str l (js ''[['')"
  then have "0x005B \<in> set l"
    by (auto simp: js_def dest: includes_str_mem)
  then have "0x005B \<in> set (trim l)"
    by (rule mem_trim) (rule bracket_not_trimmable)
  with assms show False
    by (simp add: js_def)
qed

lemma body_before:
  "\<not> isDoneSection s \<Longrightarrow> trim l \<noteq> js ''## Done'' \<Longrightarrow> loop_body s l = (Next, s)"
  by (simp add: loop_body_def)

lemma for_of_before:
  "\<not> isDoneSection s \<Longrightarrow> \<forall>l\<in>set pre. trim l \<noteq> js ''## Done'' \<Longrightarrow>
   for_of s (pre @ rest) = for_of s rest"
  by (induction pre) (simp_all add: body_before)

lemma body_marker:
  "trim d = js ''## Done'' \<Longrightarrow> loop_body s d = (Next, s\<lparr>isDoneSection := True\<rparr>)"
  by (simp add: loop_body_def)

lemma contribution_marker: "trim l = js ''## Done'' \<Longrightarrow> contribution l = []"
  by (simp add: contribution_def loop_body_def)

lemma body_inside:
  assumes "isDoneSection s" and "trim l = js ''## Done'' \<or> \<not> startsWith l (js ''## '')"
  shows "loop_body s l = (Next, s\<lparr>tasks := tasks s @ contribution l\<rparr>)"
proof (cases "trim l = js ''## Done''")
  case True
  with assms(1) show ?thesis
    by (simp add: body_marker contribution_marker)
next
  case False
  with assms show ?thesis
    by (simp add: loop_body_def contribution_def split: option.splits)
qed

lemma for_of_inside:
  "isDoneSection s \<Longrightarrow>
   \<forall>l\<in>set sec. trim l = js ''## Done'' \<or> \<not> startsWith l (js ''## '') \<Longrightarrow>
   for_of s (sec @ rest) = for_of (s\<lparr>tasks := tasks s @ concat (map contribution sec)\<rparr>) rest"
proof (induction sec arbitrary: s)
  case Nil
  then show ?case by simp
next
  case (Cons l sec)
  then show ?case
    by (simp add: body_inside)
qed

lemma body_break:
  "isDoneSection s \<Longrightarrow> startsWith h (js ''## '') \<Longrightarrow> trim h \<noteq> js ''## Done'' \<Longrightarrow>
   loop_body s h = (Break, s)"
  by (simp add: loop_body_def)

lemma for_of_section:
  assumes pre: "\<forall>l\<in>set pre. trim l \<noteq> js ''## Done''"
    and d: "trim d = js ''## Done''"
    and sec: "\<forall>l\<in>set sec. trim l = js ''## Done'' \<or> \<not> startsWith l (js ''## '')"
    and tail: "tail = [] \<or> (startsWith (hd tail) (js ''## '') \<and> trim (hd tail) \<noteq> js ''## Done'')"
  shows "tasks (for_of \<lparr>isDoneSection = False, tasks = []\<rparr> (pre @ d # sec @ tail))
         = concat (map contribution sec)"
proof -
  let ?s0 = "\<lparr>isDoneSection = False, tasks = []\<rparr>"
  let ?s1 = "\<lparr>isDoneSection = True, tasks = []\<rparr>"
  let ?s2 = "\<lparr>isDoneSection = True, tasks = concat (map contribution sec)\<rparr>"
  have "for_of ?s0 (pre @ d # sec @ tail) = for_of ?s0 (d # sec @ tail)"
    using pre by (simp add: for_of_before)
  also have "\<dots> = for_of ?s1 (sec @ tail)"
    using d by (simp add: body_marker)
  also have "\<dots> = for_of ?s2 tail"
    using sec by (simp add: for_of_inside)
  also have "\<dots> = ?s2"
  proof (cases tail)
    case Nil
    then show ?thesis by simp
  next
    case (Cons h rest)
    with tail show ?thesis by (simp add: body_break)
  qed
  finally show ?thesis by simp
qed

lemma contribution_le_one: "length (contribution line) \<le> 1"
  by (simp add: contribution_def loop_body_def split: option.splits)

lemma contribution_plain: "\<not> includes_str l (js ''[['') \<Longrightarrow> contribution l = []"
  by (simp add: contribution_def loop_body_def)

lemma concat_map_filter_nil:
  "(\<And>x. \<not> P x \<Longrightarrow> f x = []) \<Longrightarrow> concat (map f (filter P xs)) = concat (map f xs)"
  by (induction xs) auto

lemmas eval_defs =
  js_def trim_def trimmable_def isWhiteSpace_def isLineTerminator_def startsWith_def
  match_here_def loop_body_def extractDoneSection_def contribution_def

lemmas sample_defs =
  DEFAULT_SETTINGS_def board_settings_def board_file_def board_text_def env_ok_def
  env_exec_fails_def env_read_fails_def

lemma board_text_extract:
  "extractDoneSection board_text = [\<lparr>title = js ''A''\<rparr>, \<lparr>title = js ''B''\<rparr>, \<lparr>title = js ''C''\<rparr>]"
  by (simp add: board_text_def eval_defs)

lemma index_last: "xs \<noteq> [] \<Longrightarrow> xs ! (length xs - 1) = last xs"
  by (simp add: last_conv_nth)

lemma try_block_growth:
  assumes "vault_read e file = Inr doc"
    and "length (lastDoneContent p) < length (extractDoneSection doc)"
  shows "try_block e file p =
     (case runAppleScript e p (defaultScript (settings p))
             (Some \<lparr>title = title (last (extractDoneSection doc)),
                    content = title (last (extractDoneSection doc))\<rparr>) of
        (Inl err, fx) \<Rightarrow> (Inl err, p, VaultRead file # fx)
      | (Inr out, fx) \<Rightarrow>
          (Inr (), p\<lparr>lastDoneContent := extractDoneSection doc\<rparr>, VaultRead file # fx))"
proof -
  from assms(2) have "extractDoneSection doc \<noteq> []" by auto
  then have "extractDoneSection doc ! (length (extractDoneSection doc) - 1)
             = last (extractDoneSection doc)"
    by (rule index_last)
  with assms show ?thesis
    by (simp add: try_block_def truthy_array_def Let_def)
qed

lemma try_block_no_growth:
  assumes "vault_read e file = Inr doc"
    and "length (extractDoneSection doc) \<le> length (lastDoneContent p)"
  shows "try_block e file p = (Inr (), p\<lparr>lastDoneContent := extractDoneSection doc\<rparr>, [VaultRead file])"
  using assms by (simp add: try_block_def truthy_array_def Let_def)

lemma try_block_read_fails:
  "vault_read e file = Inl err \<Longrightarrow> try_block e file p = (Inl err, p, [VaultRead file])"
  by (simp add: try_block_def)

lemma handler_state:
  "path file \<in> set (targetFiles (settings p)) \<Longrightarrow>
   fst (snd (handleFileChange e file p)) = fst (snd (try_block e file p))"
  by (auto simp: handleFileChange_def split: prod.splits sum.splits)

lemma group_ok_Cons:
  "group_ok (c # cs) (Suc m) \<longleftrightarrow> \<not> isLineTerminator c \<and> group_ok cs m"
  by (simp add: group_ok_def)

lemma group_ok_0: "group_ok s 0 \<longleftrightarrow> startsWith s (js '']]'')"
  by (simp add: group_ok_def)

lemma group_ok_Nil: "\<not> group_ok [] n"
  by (simp add: group_ok_def startsWith_def js_def)

lemma lazy_capture_shortest:
  "group_ok s n \<Longrightarrow> \<forall>m<n. \<not> group_ok s m \<Longrightarrow> lazy_capture s = Some (take n s)"
proof (induction s arbitrary: n)
  case Nil
  then show ?case by (simp add: group_ok_Nil)
next
  case (Cons c cs)
  show ?case
  proof (cases n)
    case 0
    with Cons.prems show ?thesis by (simp add: group_ok_0)
  next
    case (Suc k)
    from Cons.prems(2) Suc have "\<not> startsWith (c # cs) (js '']]'')"
      using group_ok_0 by blast
    moreover from Cons.prems(1) Suc have c: "\<not> isLineTerminator c" and k: "group_ok cs k"
      by (simp_all add: group_ok_Cons)
    moreover have "\<forall>m<k. \<not> group_ok cs m"
    proof (intro allI impI)
      fix m assume "m < k"
      then have "\<not> group_ok (c # cs) (Suc m)"
        using Cons.prems(2) Suc by simp
      with c show "\<not> group_ok cs m" by (simp add: group_ok_Cons)
    qed
    ultimately show ?thesis
      using Cons.IH [of k] Suc by simp
  qed
qed

lemma lazy_capture_none:
  "\<forall>m\<le>length s. \<not> group_ok s m \<Longrightarrow> lazy_capture s = None"
proof (induction s)
  case Nil
  then show ?case by simp
next
  case (Cons c cs)
  from Cons.prems have no0: "\<not> startsWith (c # cs) (js '']]'')"
    using group_ok_0 by blast
  show ?case
  proof (cases "isLineTerminator c")
    case True
    with no0 show ?thesis by simp
  next
    case False
    have "\<forall>m\<le>length cs. \<not> group_ok cs m"
    proof (intro allI impI)
      fix m assume "m \<le> length cs"
      then have "\<not> group_ok (c # cs) (Suc m)"
        using Cons.prems by simp
      with False show "\<not> group_ok cs m" by (simp add: group_ok_Cons)
    qed
    with Cons.IH no0 False show ?thesis by simp
  qed
qed

lemma match_here_first_group:
  assumes "pattern_at line i n" and "\<forall>m<n. \<not> pattern_at line i m"
  shows "\<exists>w. match_here (drop i line) = Some [w, take n (drop (i + 2) line)]"
proof -
  from assms(1) have sw: "startsWith (drop i line) (js ''[['')"
    and g: "group_ok (drop (i + 2) line) n"
    by (simp_all add: pattern_at_def)
  from assms(2) sw have "\<forall>m<n. \<not> group_ok (drop (i + 2) line) m"
    by (simp add: pattern_at_def)
  with g have "lazy_capture (drop (i + 2) line) = Some (take n (drop (i + 2) line))"
    by (rule lazy_capture_shortest)
  moreover have "drop 2 (drop i line) = drop (i + 2) line"
    by (simp add: add.commute)
  ultimately show ?thesis
    using sw by (simp add: match_here_def)
qed

lemma match_here_no_group:
  assumes "\<forall>m\<le>length line. \<not> pattern_at line j m"
  shows "match_here (drop j line) = None"
proof (cases "startsWith (drop j line) (js ''[['')")
  case False
  then show ?thesis by (simp add: match_here_def)
next
  case True
  with assms have "\<forall>m\<le>length line. \<not> group_ok (drop (j + 2) line) m"
    by (simp add: pattern_at_def)
  then have "\<forall>m\<le>length (drop (j + 2) line). \<not> group_ok (drop (j + 2) line) m"
    by simp
  then have "lazy_capture (drop (j + 2) line) = None"
    by (rule lazy_capture_none)
  moreover have "drop 2 (drop j line) = drop (j + 2) line"
    by (simp add: add.commute)
  ultimately show ?thesis
    by (simp add: match_here_def)
qed

lemma match_wikilink_skip:
  "\<forall>j<i. match_here (drop j line) = None \<Longrightarrow> match_wikilink line = match_wikilink (drop i line)"
proof (induction line arbitrary: i)
  case Nil
  then show ?case by simp
next
  case (Cons c cs)
  show ?case
  proof (cases i)
    case 0
    then show ?thesis by simp
  next
    case (Suc k)
    from Cons.prems Suc have "match_here (drop 0 (c # cs)) = None"
      by blast
    then have first: "match_wikilink (c # cs) = match_wikilink cs"
      by simp
    have "\<forall>j<k. match_here (drop j cs) = None"
    proof (intro allI impI)
      fix j assume "j < k"
      then have "match_here (drop (Suc j) (c # cs)) = None"
        using Cons.prems Suc by blast
      then show "match_here (drop j cs) = None" by simp
    qed
    then have "match_wikilink cs = match_wikilink (drop k cs)"
      by (rule Cons.IH)
    with first Suc show ?thesis by simp
  qed
qed

lemma match_wikilink_here:
  "match_here s = Some m \<Longrightarrow> match_wikilink s = Some m"
  by (cases s) (simp_all add: match_here_def startsWith_def js_def)

lemma match_wikilink_none:
  "\<forall>j\<le>length line. match_here (drop j line) = None \<Longrightarrow> match_wikilink line = None"
proof (induction line)
  case Nil
  then show ?case by simp
next
  case (Cons c cs)
  from Cons.prems have "match_here (drop 0 (c # cs)) = None"
    by blast
  moreover have "\<forall>j\<le>length cs. match_here (drop j cs) = None"
  proof (intro allI impI)
    fix j assume "j \<le> length cs"
    then have "Suc j \<le> length (c # cs)"
      by simp
    with Cons.prems have "match_here (drop (Suc j) (c # cs)) = None"
      by blast
    then show "match_here (drop j cs) = None" by simp
  qed
  ultimately show ?case
    using Cons.IH by simp
qed

lemma startsWith_drop_includes:
  "startsWith (drop i s) q \<Longrightarrow> q \<noteq> [] \<Longrightarrow> includes_str s q"
proof (induction s arbitrary: i)
  case Nil
  then show ?case by (simp add: startsWith_def)
next
  case (Cons c cs)
  then show ?case by (cases i) auto
qed

lemma first_match:
  assumes "pattern_at line i n"
    and "\<forall>j<i. \<forall>m\<le>length line. \<not> pattern_at line j m"
    and "\<forall>m<n. \<not> pattern_at line i m"
  shows "\<exists>w. match_wikilink line = Some [w, take n (drop (i + 2) line)]"
proof -
  have "\<forall>j<i. match_here (drop j line) = None"
    using assms(2) by (simp add: match_here_no_group)
  then have "match_wikilink line = match_wikilink (drop i line)"
    by (rule match_wikilink_skip)
  moreover obtain w where "match_here (drop i line) = Some [w, take n (drop (i + 2) line)]"
    using match_here_first_group [OF assms(1,3)] by blast
  ultimately show ?thesis
    by (simp add: match_wikilink_here)
qed

lemma no_match:
  assumes "\<forall>j\<le>length line. \<forall>m\<le>length line. \<not> pattern_at line j m"
  shows "match_wikilink line = None"
  using assms by (intro match_wikilink_none) (simp add: match_here_no_group)

lemma contribution_first_match:
  assumes "\<not> startsWith line (js ''## '')"
    and "pattern_at line i n"
    and "\<forall>j<i. \<forall>m\<le>length line. \<not> pattern_at line j m"
    and "\<forall>m<n. \<not> pattern_at line i m"
  shows "contribution line = [\<lparr>title = trim (take n (drop (i + 2) line))\<rparr>]"
proof -
  from assms(2) have "startsWith (drop i line) (js ''[['')"
    by (simp add: pattern_at_def)
  then have inc: "includes_str line (js ''[['')"
    by (rule startsWith_drop_includes) (simp add: js_def)
  then have "trim line \<noteq> js ''## Done''"
    using marker_no_link by blast
  moreover obtain w where "match_wikilink line = Some [w, take n (drop (i + 2) line)]"
    using first_match [OF assms(2,3,4)] by blast
  ultimately show ?thesis
    using assms(1) inc by (simp add: contribution_def loop_body_def)
qed

lemma contribution_no_match:
  assumes "\<forall>j\<le>length line. \<forall>m\<le>length line. \<not> pattern_at line j m"
  shows "contribution line = []"
  using no_match [OF assms] by (simp add: contribution_def loop_body_def)

lemma all_less_upt: "(\<forall>j<i. P j) \<longleftrightarrow> list_all P [0..<i]"
  by (auto simp: list_all_iff)

lemma all_le_upt: "(\<forall>j\<le>k. P j) \<longleftrightarrow> list_all P [0..<Suc k]"
  by (auto simp: list_all_iff less_Suc_eq_le)

lemmas line_defs = line_padded_def line_cr_def line_cr_only_def

lemma empty_frame:
  "\<forall>l\<in>set ([]::jstring list). trim l \<noteq> js ''## Done''"
  "trim (js ''## Done'') = js ''## Done''"
  "([]::jstring list) = [] \<or> (startsWith (hd []) (js ''## '') \<and> trim (hd []) \<noteq> js ''## Done'')"
  by (simp_all add: eval_defs)

section \<open>The section extractor\<close>

text \<open>
  C7. A text in which no line is equal to \<open>## Done\<close> after trimming has no Done section:
  the extractor returns the empty sequence. The comparison is an equality of the trimmed
  line with the marker, so \<open>## done\<close>, \<open>## Done!\<close> and \<open>### Done\<close> do not open
  the section. The extractor has no failing path: its result is always a list.
\<close>

theorem no_marker_empty:
  assumes "\<forall>l\<in>set (split_on 0x000A doc). trim l \<noteq> js ''## Done''"
  shows "extractDoneSection doc = []"
proof -
  have "for_of \<lparr>isDoneSection = False, tasks = []\<rparr> (split_on 0x000A doc @ [])
        = for_of \<lparr>isDoneSection = False, tasks = []\<rparr> []"
    using assms by (intro for_of_before) simp_all
  then show ?thesis
    by (simp add: extractDoneSection_def)
qed

theorem no_marker_empty_witness:
  "list_all (\<lambda>l. trim l \<noteq> js ''## Done'')
     (split_on 0x000A (js ''## done\<newline>[[A]]\<newline>## Done!\<newline>[[B]]\<newline>### Done\<newline>[[C]]''))
   \<and> extractDoneSection (js ''## done\<newline>[[A]]\<newline>## Done!\<newline>[[B]]\<newline>### Done\<newline>[[C]]'') = []"
proof -
  have h: "\<forall>l\<in>set (split_on 0x000A (js ''## done\<newline>[[A]]\<newline>## Done!\<newline>[[B]]\<newline>### Done\<newline>[[C]]'')).
      trim l \<noteq> js ''## Done''"
    by (simp add: js_def trim_def trimmable_def isWhiteSpace_def isLineTerminator_def)
  show ?thesis
    using h no_marker_empty [OF h] by (simp add: list_all_iff)
qed

text \<open>
  C2, as amended. Once the scan is inside the Done section it ends at the first later line
  that starts with \<open>## \<close> and is not itself equal to \<open>## Done\<close> after trimming: the
  result is what the lines \<open>sec\<close> between the marker and that heading contribute, whatever
  the heading \<open>h\<close> and the lines \<open>rest\<close> after it hold. A line of \<open>sec\<close> that trims to
  \<open>## Done\<close> is passed over by the marker test, which comes first in the loop body, and
  does not end the section.
\<close>

theorem scan_stops_at_next_heading:
  assumes "split_on 0x000A doc = pre @ d # sec @ h # rest"
    and "\<forall>l\<in>set pre. trim l \<noteq> js ''## Done''"
    and "trim d = js ''## Done''"
    and "\<forall>l\<in>set sec. trim l = js ''## Done'' \<or> \<not> startsWith l (js ''## '')"
    and "startsWith h (js ''## '')"
    and "trim h \<noteq> js ''## Done''"
  shows "extractDoneSection doc = concat (map contribution sec)"
  using for_of_section [of pre d sec "h # rest"] assms
  by (simp add: extractDoneSection_def)

theorem scan_stops_at_next_heading_witness:
  "split_on 0x000A (js ''intro\<newline>## Done\<newline>[[A]]\<newline>## Done\<newline>[[B]]\<newline>## Other\<newline>[[C]]\<newline>## Done\<newline>[[D]]'')
     = [js ''intro''] @ js ''## Done'' # [js ''[[A]]'', js ''## Done'', js ''[[B]]'']
         @ js ''## Other'' # [js ''[[C]]'', js ''## Done'', js ''[[D]]'']
   \<and> list_all (\<lambda>l. trim l \<noteq> js ''## Done'') [js ''intro'']
   \<and> trim (js ''## Done'') = js ''## Done''
   \<and> list_all (\<lambda>l. trim l = js ''## Done'' \<or> \<not> startsWith l (js ''## ''))
         [js ''[[A]]'', js ''## Done'', js ''[[B]]'']
   \<and> startsWith (js ''## Other'') (js ''## '')
   \<and> trim (js ''## Other'') \<noteq> js ''## Done''
   \<and> extractDoneSection (js ''intro\<newline>## Done\<newline>[[A]]\<newline>## Done\<newline>[[B]]\<newline>## Other\<newline>[[C]]\<newline>## Done\<newline>[[D]]'')
       = [\<lparr>title = js ''A''\<rparr>, \<lparr>title = js ''B''\<rparr>]"
proof -
  let ?doc = "js ''intro\<newline>## Done\<newline>[[A]]\<newline>## Done\<newline>[[B]]\<newline>## Other\<newline>[[C]]\<newline>## Done\<newline>[[D]]''"
  let ?sec = "[js ''[[A]]'', js ''## Done'', js ''[[B]]'']"
  have 1: "split_on 0x000A ?doc
      = [js ''intro''] @ js ''## Done'' # ?sec @ js ''## Other'' # [js ''[[C]]'', js ''## Done'', js ''[[D]]'']"
    by (simp add: js_def)
  have 2: "\<forall>l\<in>set [js ''intro'']. trim l \<noteq> js ''## Done''"
    by (simp add: eval_defs)
  have 3: "trim (js ''## Done'') = js ''## Done''"
    by (simp add: eval_defs)
  have 4: "\<forall>l\<in>set ?sec. trim l = js ''## Done'' \<or> \<not> startsWith l (js ''## '')"
    by (simp add: eval_defs)
  have 5: "startsWith (js ''## Other'') (js ''## '')"
    by (simp add: eval_defs)
  have 6: "trim (js ''## Other'') \<noteq> js ''## Done''"
    by (simp add: eval_defs)
  have "extractDoneSection ?doc = concat (map contribution ?sec)"
    by (rule scan_stops_at_next_heading [OF 1 2 3 4 5 6])
  also have "\<dots> = [\<lparr>title = js ''A''\<rparr>, \<lparr>title = js ''B''\<rparr>]"
    by (simp add: eval_defs)
  finally show ?thesis
    using 1 2 3 4 5 6 by (simp add: list_all_iff)
qed

text \<open>
  The claim as stated fails on a repeated marker: the third line below starts with
  \<open>## \<close>, yet the scan goes on and the link after it is collected.
\<close>

theorem repeated_marker_counterexample:
  "split_on 0x000A (js ''## Done\<newline>[[A]]\<newline>## Done\<newline>[[B]]'')
     = [js ''## Done'', js ''[[A]]'', js ''## Done'', js ''[[B]]'']
   \<and> startsWith (js ''## Done'') (js ''## '')
   \<and> extractDoneSection (js ''## Done\<newline>[[A]]\<newline>## Done\<newline>[[B]]'')
       = [\<lparr>title = js ''A''\<rparr>, \<lparr>title = js ''B''\<rparr>]"
  by (simp add: eval_defs)

text \<open>
  C5, as amended. The extractor keeps document order: for a text whose Done section is the
  lines \<open>sec\<close>, from the marker \<open>d\<close> up to the end of the text or to the first later line
  that starts with \<open>## \<close> and is not itself equal to \<open>## Done\<close> after trimming, the
  result is the concatenation, in the order of the lines, of what each line contributes.
  In particular, when the lines of this section that hold a wiki-link are \<open>[[A]]\<close>,
  \<open>[[B]]\<close>, \<open>[[C]]\<close> in this order, the result is exactly the records A, B, C in this
  order.
\<close>

theorem extraction_preserves_document_order:
  assumes "split_on 0x000A doc = pre @ d # sec @ tail"
    and "\<forall>l\<in>set pre. trim l \<noteq> js ''## Done''"
    and "trim d = js ''## Done''"
    and "\<forall>l\<in>set sec. trim l = js ''## Done'' \<or> \<not> startsWith l (js ''## '')"
    and "tail = [] \<or> (startsWith (hd tail) (js ''## '') \<and> trim (hd tail) \<noteq> js ''## Done'')"
  shows "extractDoneSection doc = concat (map contribution sec) \<and>
         (filter (\<lambda>l. includes_str l (js ''[['')) sec = [js ''[[A]]'', js ''[[B]]'', js ''[[C]]''] \<longrightarrow>
          extractDoneSection doc = [\<lparr>title = js ''A''\<rparr>, \<lparr>title = js ''B''\<rparr>, \<lparr>title = js ''C''\<rparr>])"
proof -
  have all: "extractDoneSection doc = concat (map contribution sec)"
    using for_of_section [of pre d sec tail] assms by (simp add: extractDoneSection_def)
  have abc: "concat (map contribution [js ''[[A]]'', js ''[[B]]'', js ''[[C]]''])
             = [\<lparr>title = js ''A''\<rparr>, \<lparr>title = js ''B''\<rparr>, \<lparr>title = js ''C''\<rparr>]"
    by (simp add: eval_defs)
  have "concat (map contribution (filter (\<lambda>l. includes_str l (js ''[['')) sec))
        = concat (map contribution sec)"
    by (rule concat_map_filter_nil) (rule contribution_plain)
  with all abc show ?thesis by auto
qed

theorem extraction_preserves_document_order_witness:
  "split_on 0x000A (js ''## Todo\<newline>- [ ] [[X]]\<newline>## Done\<newline>[[A]]\<newline>[[B]]\<newline>**Complete**\<newline>[[C]]\<newline>## Archive\<newline>[[Z]]'')
     = [js ''## Todo'', js ''- [ ] [[X]]''] @ js ''## Done''
         # [js ''[[A]]'', js ''[[B]]'', js ''**Complete**'', js ''[[C]]'']
         @ [js ''## Archive'', js ''[[Z]]'']
   \<and> list_all (\<lambda>l. trim l \<noteq> js ''## Done'') [js ''## Todo'', js ''- [ ] [[X]]'']
   \<and> trim (js ''## Done'') = js ''## Done''
   \<and> list_all (\<lambda>l. trim l = js ''## Done'' \<or> \<not> startsWith l (js ''## ''))
         [js ''[[A]]'', js ''[[B]]'', js ''**Complete**'', js ''[[C]]'']
   \<and> startsWith (hd [js ''## Archive'', js ''[[Z]]'']) (js ''## '')
   \<and> trim (hd [js ''## Archive'', js ''[[Z]]'']) \<noteq> js ''## Done''
   \<and> filter (\<lambda>l. includes_str l (js ''[[''))
         [js ''[[A]]'', js ''[[B]]'', js ''**Complete**'', js ''[[C]]'']
       = [js ''[[A]]'', js ''[[B]]'', js ''[[C]]'']
   \<and> extractDoneSection (js ''## Todo\<newline>- [ ] [[X]]\<newline>## Done\<newline>[[A]]\<newline>[[B]]\<newline>**Complete**\<newline>[[C]]\<newline>## Archive\<newline>[[Z]]'')
       = [\<lparr>title = js ''A''\<rparr>, \<lparr>title = js ''B''\<rparr>, \<lparr>title = js ''C''\<rparr>]"
proof -
  let ?doc = "js ''## Todo\<newline>- [ ] [[X]]\<newline>## Done\<newline>[[A]]\<newline>[[B]]\<newline>**Complete**\<newline>[[C]]\<newline>## Archive\<newline>[[Z]]''"
  let ?pre = "[js ''## Todo'', js ''- [ ] [[X]]'']"
  let ?sec = "[js ''[[A]]'', js ''[[B]]'', js ''**Complete**'', js ''[[C]]'']"
  let ?tail = "[js ''## Archive'', js ''[[Z]]'']"
  have 1: "split_on 0x000A ?doc = ?pre @ js ''## Done'' # ?sec @ ?tail"
    by (simp add: js_def)
  have 2: "\<forall>l\<in>set ?pre. trim l \<noteq> js ''## Done''"
    by (simp add: eval_defs)
  have 3: "trim (js ''## Done'') = js ''## Done''"
    by (simp add: eval_defs)
  have 4: "\<forall>l\<in>set ?sec. trim l = js ''## Done'' \<or> \<not> startsWith l (js ''## '')"
    by (simp add: eval_defs)
  have 5: "startsWith (hd ?tail) (js ''## '') \<and> trim (hd ?tail) \<noteq> js ''## Done''"
    by (simp add: eval_defs)
  have 6: "filter (\<lambda>l. includes_str l (js ''[['')) ?sec = [js ''[[A]]'', js ''[[B]]'', js ''[[C]]'']"
    by (simp add: eval_defs)
  have "extractDoneSection ?doc = [\<lparr>title = js ''A''\<rparr>, \<lparr>title = js ''B''\<rparr>, \<lparr>title = js ''C''\<rparr>]"
    using extraction_preserves_document_order [OF 1 2 3 4 5 [THEN disjI2]] 6 by blast
  then show ?thesis
    using 1 2 3 4 5 6 by (simp add: list_all_iff)
qed

text \<open>
  The claim as stated fails when the heading after the three links is a second
  \<open>## Done\<close>: the lines between the marker and the next \<open>## \<close> line are the three links,
  but the scan goes on past that line and a fourth record is returned.
\<close>

theorem repeated_marker_after_links_counterexample:
  "split_on 0x000A (js ''## Done\<newline>[[A]]\<newline>[[B]]\<newline>[[C]]\<newline>## Done\<newline>[[D]]'')
     = js ''## Done'' # [js ''[[A]]'', js ''[[B]]'', js ''[[C]]''] @ [js ''## Done'', js ''[[D]]'']
   \<and> trim (js ''## Done'') = js ''## Done''
   \<and> list_all (\<lambda>l. \<not> startsWith l (js ''## '')) [js ''[[A]]'', js ''[[B]]'', js ''[[C]]'']
   \<and> startsWith (js ''## Done'') (js ''## '')
   \<and> extractDoneSection (js ''## Done\<newline>[[A]]\<newline>[[B]]\<newline>[[C]]\<newline>## Done\<newline>[[D]]'')
       = [\<lparr>title = js ''A''\<rparr>, \<lparr>title = js ''B''\<rparr>, \<lparr>title = js ''C''\<rparr>, \<lparr>title = js ''D''\<rparr>]
   \<and> extractDoneSection (js ''## Done\<newline>[[A]]\<newline>[[B]]\<newline>[[C]]\<newline>## Done\<newline>[[D]]'')
       \<noteq> [\<lparr>title = js ''A''\<rparr>, \<lparr>title = js ''B''\<rparr>, \<lparr>title = js ''C''\<rparr>]"
  by (simp add: eval_defs)

text \<open>
  C6, as amended. A line inside the Done section adds at most one record, however many
  wiki-links it holds. Its title is the group of the first match of the pattern, trimmed:
  the match that starts at the leftmost \<open>[[\<close> from which a \<open>]]\<close> is reached without
  passing a line terminator, taken up to the first such \<open>]]\<close>. A \<open>[[\<close> that is followed by
  a line terminator before any \<open>]]\<close> starts no match and is passed over; a line with no
  match at all adds nothing. The records of the lines before and after are unchanged.
\<close>

theorem first_match_of_line_only:
  assumes "split_on 0x000A doc = pre @ d # sec1 @ line # sec2 @ tail"
    and "\<forall>l\<in>set pre. trim l \<noteq> js ''## Done''"
    and "trim d = js ''## Done''"
    and "\<forall>l\<in>set (sec1 @ sec2). trim l = js ''## Done'' \<or> \<not> startsWith l (js ''## '')"
    and "tail = [] \<or> (startsWith (hd tail) (js ''## '') \<and> trim (hd tail) \<noteq> js ''## Done'')"
    and "\<not> startsWith line (js ''## '')"
  shows "(pattern_at line i n
            \<and> (\<forall>j<i. \<forall>m\<le>length line. \<not> pattern_at line j m)
            \<and> (\<forall>m<n. \<not> pattern_at line i m)
          \<longrightarrow> extractDoneSection doc
                = concat (map contribution sec1)
                  @ \<lparr>title = trim (take n (drop (i + 2) line))\<rparr> # concat (map contribution sec2))
         \<and> ((\<forall>j\<le>length line. \<forall>m\<le>length line. \<not> pattern_at line j m)
          \<longrightarrow> extractDoneSection doc
                = concat (map contribution sec1) @ concat (map contribution sec2))
         \<and> length (contribution l) \<le> 1"
proof -
  have "\<forall>l\<in>set (sec1 @ line # sec2). trim l = js ''## Done'' \<or> \<not> startsWith l (js ''## '')"
    using assms(4,6) by auto
  then have "extractDoneSection doc = concat (map contribution (sec1 @ line # sec2))"
    using for_of_section [of pre d "sec1 @ line # sec2" tail] assms(1,2,3,5)
    by (simp add: extractDoneSection_def)
  then have whole: "extractDoneSection doc
      = concat (map contribution sec1) @ contribution line @ concat (map contribution sec2)"
    by simp
  have one: "contribution line = [\<lparr>title = trim (take n (drop (i + 2) line))\<rparr>]"
    if "pattern_at line i n" "\<forall>j<i. \<forall>m\<le>length line. \<not> pattern_at line j m"
      "\<forall>m<n. \<not> pattern_at line i m"
    using assms(6) that by (rule contribution_first_match)
  have none: "contribution line = []"
    if "\<forall>j\<le>length line. \<forall>m\<le>length line. \<not> pattern_at line j m"
    using that by (rule contribution_no_match)
  have "length (contribution l) \<le> 1"
    by (rule contribution_le_one)
  with whole one none show ?thesis
    by (intro conjI impI) simp_all
qed

theorem first_match_of_line_only_witness:
  "split_on 0x000A (js ''## Done\<newline>[[X]]\<newline>'' @ line_padded @ js ''\<newline>[[Y]]'')
     = [] @ js ''## Done'' # [js ''[[X]]''] @ line_padded # [js ''[[Y]]''] @ []
   \<and> \<not> startsWith line_padded (js ''## '')
   \<and> pattern_at line_padded 2 3
   \<and> list_all (\<lambda>j. list_all (\<lambda>m. \<not> pattern_at line_padded j m) [0..<Suc (length line_padded)]) [0..<2]
   \<and> list_all (\<lambda>m. \<not> pattern_at line_padded 2 m) [0..<3]
   \<and> extractDoneSection (js ''## Done\<newline>[[X]]\<newline>'' @ line_padded @ js ''\<newline>[[Y]]'')
       = [\<lparr>title = js ''X''\<rparr>, \<lparr>title = js ''A''\<rparr>, \<lparr>title = js ''Y''\<rparr>]
   \<and> split_on 0x000A (js ''## Done\<newline>'' @ line_cr) = [] @ js ''## Done'' # [] @ line_cr # [] @ []
   \<and> \<not> startsWith line_cr (js ''## '')
   \<and> pattern_at line_cr 7 1
   \<and> list_all (\<lambda>j. list_all (\<lambda>m. \<not> pattern_at line_cr j m) [0..<Suc (length line_cr)]) [0..<7]
   \<and> list_all (\<lambda>m. \<not> pattern_at line_cr 7 m) [0..<1]
   \<and> extractDoneSection (js ''## Done\<newline>'' @ line_cr) = [\<lparr>title = js ''b''\<rparr>]
   \<and> split_on 0x000A (js ''## Done\<newline>'' @ line_cr_only) = [] @ js ''## Done'' # [] @ line_cr_only # [] @ []
   \<and> \<not> startsWith line_cr_only (js ''## '')
   \<and> list_all (\<lambda>j. list_all (\<lambda>m. \<not> pattern_at line_cr_only j m) [0..<Suc (length line_cr_only)])
         [0..<Suc (length line_cr_only)]
   \<and> extractDoneSection (js ''## Done\<newline>'' @ line_cr_only) = []"
proof -
  let ?doc1 = "js ''## Done\<newline>[[X]]\<newline>'' @ line_padded @ js ''\<newline>[[Y]]''"
  let ?doc2 = "js ''## Done\<newline>'' @ line_cr"
  let ?doc3 = "js ''## Done\<newline>'' @ line_cr_only"
  have a1: "split_on 0x000A ?doc1 = [] @ js ''## Done'' # [js ''[[X]]''] @ line_padded # [js ''[[Y]]''] @ []"
    by (simp add: js_def line_defs)
  have a4: "\<forall>l\<in>set ([js ''[[X]]''] @ [js ''[[Y]]'']). trim l = js ''## Done'' \<or> \<not> startsWith l (js ''## '')"
    by (simp add: eval_defs)
  have a6: "\<not> startsWith line_padded (js ''## '')"
    by (simp add: eval_defs line_defs)
  have a7: "pattern_at line_padded 2 3"
    by code_simp
  have a8: "list_all (\<lambda>j. list_all (\<lambda>m. \<not> pattern_at line_padded j m) [0..<Suc (length line_padded)]) [0..<2]"
    by code_simp
  have a9: "list_all (\<lambda>m. \<not> pattern_at line_padded 2 m) [0..<3]"
    by code_simp
  have a: "extractDoneSection ?doc1
        = concat (map contribution [js ''[[X]]''])
          @ \<lparr>title = trim (take 3 (drop (2 + 2) line_padded))\<rparr> # concat (map contribution [js ''[[Y]]''])"
    using first_match_of_line_only [OF a1 empty_frame(1,2) a4 empty_frame(3) a6, of 2 3] a7 a8 a9
    by (simp add: all_less_upt all_le_upt)
  have a': "extractDoneSection ?doc1 = [\<lparr>title = js ''X''\<rparr>, \<lparr>title = js ''A''\<rparr>, \<lparr>title = js ''Y''\<rparr>]"
    unfolding a by (simp add: eval_defs line_defs)
  have b1: "split_on 0x000A ?doc2 = [] @ js ''## Done'' # [] @ line_cr # [] @ []"
    by (simp add: js_def line_defs)
  have nil4: "\<forall>l\<in>set ([] @ ([]::jstring list)). trim l = js ''## Done'' \<or> \<not> startsWith l (js ''## '')"
    by simp
  have b6: "\<not> startsWith line_cr (js ''## '')"
    by (simp add: eval_defs line_defs)
  have b7: "pattern_at line_cr 7 1"
    by code_simp
  have b8: "list_all (\<lambda>j. list_all (\<lambda>m. \<not> pattern_at line_cr j m) [0..<Suc (length line_cr)]) [0..<7]"
    by code_simp
  have b9: "list_all (\<lambda>m. \<not> pattern_at line_cr 7 m) [0..<1]"
    by code_simp
  have b: "extractDoneSection ?doc2
        = concat (map contribution []) @ \<lparr>title = trim (take 1 (drop (7 + 2) line_cr))\<rparr> # concat (map contribution [])"
    using first_match_of_line_only [OF b1 empty_frame(1,2) nil4 empty_frame(3) b6, of 7 1] b7 b8 b9
    by (simp add: all_less_upt all_le_upt)
  have b': "extractDoneSection ?doc2 = [\<lparr>title = js ''b''\<rparr>]"
    unfolding b by (simp add: eval_defs line_defs)
  have c1: "split_on 0x000A ?doc3 = [] @ js ''## Done'' # [] @ line_cr_only # [] @ []"
    by (simp add: js_def line_defs)
  have c6: "\<not> startsWith line_cr_only (js ''## '')"
    by (simp add: eval_defs line_defs)
  have c8: "list_all (\<lambda>j. list_all (\<lambda>m. \<not> pattern_at line_cr_only j m) [0..<Suc (length line_cr_only)])
         [0..<Suc (length line_cr_only)]"
    by code_simp
  have c: "extractDoneSection ?doc3 = concat (map contribution []) @ concat (map contribution [])"
    using first_match_of_line_only [OF c1 empty_frame(1,2) nil4 empty_frame(3) c6] c8
    by (simp add: all_less_upt all_le_upt)
  then have c': "extractDoneSection ?doc3 = []"
    by simp
  show ?thesis
    using a1 a6 a7 a8 a9 a' b1 b6 b7 b8 b9 b' c1 c6 c8 c' by (intro conjI)
qed

text \<open>
  The claim as stated fails on a line whose first link holds a carriage return: the text
  between the first pair of double brackets trims to \<open>a\<close>, but the record added has the
  title of the second link.
\<close>

theorem line_terminator_in_link_counterexample:
  "split_on 0x000A (js ''## Done\<newline>'' @ line_cr) = [js ''## Done'', line_cr]
   \<and> line_cr = js ''[['' @ (js ''a'' @ [0x000D]) @ js '']]'' @ js '' [[b]] [[c]]''
   \<and> trim (js ''a'' @ [0x000D]) = js ''a''
   \<and> extractDoneSection (js ''## Done\<newline>'' @ line_cr) = [\<lparr>title = js ''b''\<rparr>]
   \<and> extractDoneSection (js ''## Done\<newline>'' @ line_cr) \<noteq> [\<lparr>title = js ''a''\<rparr>]"
  by (simp add: eval_defs line_defs)

section \<open>The change handler\<close>

text \<open>
  C1. On a monitored file whose read succeeds, when the extracted sequence is longer than
  the stored one, the handler dispatches exactly once: \<open>runAppleScript\<close> is called with a
  payload once, the payload carries the title of the last record in both fields, and one
  command is run, holding the script composed from this payload. This holds whether or
  not the command then fails.
\<close>

theorem growth_dispatches_last:
  assumes "path file \<in> set (targetFiles (settings p))"
    and "vault_read e file = Inr doc"
    and "length (lastDoneContent p) < length (extractDoneSection doc)"
  shows "dispatches (snd (snd (handleFileChange e file p)))
           = [\<lparr>title = title (last (extractDoneSection doc)),
               content = title (last (extractDoneSection doc))\<rparr>]
         \<and> execs (snd (snd (handleFileChange e file p)))
           = [js ''osascript -e '' @ [0x0027]
              @ compose_script (settings p) (defaultScript (settings p))
                  (Some \<lparr>title = title (last (extractDoneSection doc)),
                         content = title (last (extractDoneSection doc))\<rparr>)
              @ [0x0027]]"
  using assms
  by (simp add: handleFileChange_def try_block_growth runAppleScript_def Let_def
      dispatches_def execs_def split: sum.splits)

theorem growth_dispatches_last_witness:
  "path board_file \<in> set (targetFiles board_settings)
   \<and> vault_read env_ok board_file = Inr board_text
   \<and> length [\<lparr>title = js ''A''\<rparr>, \<lparr>title = js ''B''\<rparr>] < length (extractDoneSection board_text)
   \<and> extractDoneSection board_text = [\<lparr>title = js ''A''\<rparr>, \<lparr>title = js ''B''\<rparr>, \<lparr>title = js ''C''\<rparr>]
   \<and> dispatches (snd (snd (handleFileChange env_ok board_file
        \<lparr>settings = board_settings, lastDoneContent = [\<lparr>title = js ''A''\<rparr>, \<lparr>title = js ''B''\<rparr>]\<rparr>)))
       = [\<lparr>title = js ''C'', content = js ''C''\<rparr>]"
proof -
  let ?p = "\<lparr>settings = board_settings, lastDoneContent = [\<lparr>title = js ''A''\<rparr>, \<lparr>title = js ''B''\<rparr>]\<rparr>"
  have 1: "path board_file \<in> set (targetFiles (settings ?p))"
    by (simp add: sample_defs js_def)
  have 2: "vault_read env_ok board_file = Inr board_text"
    by (simp add: env_ok_def)
  have 3: "length (lastDoneContent ?p) < length (extractDoneSection board_text)"
    by (simp add: board_text_extract)
  have "dispatches (snd (snd (handleFileChange env_ok board_file ?p)))
        = [\<lparr>title = title (last (extractDoneSection board_text)),
            content = title (last (extractDoneSection board_text))\<rparr>]"
    using growth_dispatches_last [OF 1 2 3] by (rule conjunct1)
  then show ?thesis
    using 1 2 3 by (simp add: board_text_extract)
qed

text \<open>
  C3, as amended. On a monitored file whose read succeeds the handler never throws, and
  the stored sequence is replaced by the extracted one whether or not a dispatch took
  place, except when a dispatch was attempted and the command failed: the exception is
  caught and logged, and the stored sequence stays as it was before the event. In that
  case the effects are, in order, the read, the call of \<open>runAppleScript\<close>, the command, the
  log entry of \<open>runAppleScript\<close> and the log entry of the handler's \<open>catch\<close>.
\<close>

theorem state_overwritten_unless_dispatch_fails:
  assumes "path file \<in> set (targetFiles (settings p))"
    and "vault_read e file = Inr doc"
  shows "fst (handleFileChange e file p) = Inr ()
         \<and> fst (snd (handleFileChange e file p))
           = (if length (lastDoneContent p) < length (extractDoneSection doc)
                 \<and> isl (fst (runAppleScript e p (defaultScript (settings p))
                          (Some \<lparr>title = title (last (extractDoneSection doc)),
                                 content = title (last (extractDoneSection doc))\<rparr>)))
              then p
              else p\<lparr>lastDoneContent := extractDoneSection doc\<rparr>)
         \<and> (\<forall>err.
               length (lastDoneContent p) < length (extractDoneSection doc)
               \<and> execAsync e
                    (js ''osascript -e '' @ [0x0027]
                     @ compose_script (settings p) (defaultScript (settings p))
                         (Some \<lparr>title = title (last (extractDoneSection doc)),
                                content = title (last (extractDoneSection doc))\<rparr>)
                     @ [0x0027]) = Inl err
               \<longrightarrow> snd (snd (handleFileChange e file p))
                   = [VaultRead file,
                      CallRunAppleScript (defaultScript (settings p))
                        (Some \<lparr>title = title (last (extractDoneSection doc)),
                               content = title (last (extractDoneSection doc))\<rparr>),
                      ExecAsync
                        (js ''osascript -e '' @ [0x0027]
                         @ compose_script (settings p) (defaultScript (settings p))
                             (Some \<lparr>title = title (last (extractDoneSection doc)),
                                    content = title (last (extractDoneSection doc))\<rparr>)
                         @ [0x0027]),
                      ConsoleError ''Error executing AppleScript:'' err,
                      ConsoleError ''Error processing file change:'' err])"
proof (cases "length (lastDoneContent p) < length (extractDoneSection doc)")
  case True
  have state: "fst (handleFileChange e file p) = Inr ()
         \<and> fst (snd (handleFileChange e file p))
           = (if length (lastDoneContent p) < length (extractDoneSection doc)
                 \<and> isl (fst (runAppleScript e p (defaultScript (settings p))
                          (Some \<lparr>title = title (last (extractDoneSection doc)),
                                 content = title (last (extractDoneSection doc))\<rparr>)))
              then p
              else p\<lparr>lastDoneContent := extractDoneSection doc\<rparr>)"
    using True assms
    by (simp add: handleFileChange_def try_block_growth split: prod.splits sum.splits)
  have log: "snd (snd (handleFileChange e file p))
                   = [VaultRead file,
                      CallRunAppleScript (defaultScript (settings p))
                        (Some \<lparr>title = title (last (extractDoneSection doc)),
                               content = title (last (extractDoneSection doc))\<rparr>),
                      ExecAsync
                        (js ''osascript -e '' @ [0x0027]
                         @ compose_script (settings p) (defaultScript (settings p))
                             (Some \<lparr>title = title (last (extractDoneSection doc)),
                                    content = title (last (extractDoneSection doc))\<rparr>)
                         @ [0x0027]),
                      ConsoleError ''Error executing AppleScript:'' err,
                      ConsoleError ''Error processing file change:'' err]"
    if "execAsync e
                    (js ''osascript -e '' @ [0x0027]
                     @ compose_script (settings p) (defaultScript (settings p))
                         (Some \<lparr>title = title (last (extractDoneSection doc)),
                                content = title (last (extractDoneSection doc))\<rparr>)
                     @ [0x0027]) = Inl err" for err
    using True assms that
    by (simp add: handleFileChange_def try_block_growth runAppleScript_def Let_def)
  from state log show ?thesis
    by blast
next
  case False
  with assms show ?thesis
    by (simp add: handleFileChange_def try_block_no_growth)
qed

theorem state_overwritten_unless_dispatch_fails_witness:
  "path board_file \<in> set (targetFiles board_settings)
   \<and> vault_read env_ok board_file = Inr board_text
   \<and> fst (handleFileChange env_ok board_file \<lparr>settings = board_settings, lastDoneContent = []\<rparr>) = Inr ()
   \<and> lastDoneContent (fst (snd (handleFileChange env_ok board_file
        \<lparr>settings = board_settings, lastDoneContent = []\<rparr>)))
       = [\<lparr>title = js ''A''\<rparr>, \<lparr>title = js ''B''\<rparr>, \<lparr>title = js ''C''\<rparr>]
   \<and> vault_read env_exec_fails board_file = Inr board_text
   \<and> length (lastDoneContent \<lparr>settings = board_settings, lastDoneContent = []\<rparr>)
       < length (extractDoneSection board_text)
   \<and> execAsync env_exec_fails
        (js ''osascript -e '' @ [0x0027]
         @ compose_script board_settings (defaultScript board_settings)
             (Some \<lparr>title = js ''C'', content = js ''C''\<rparr>)
         @ [0x0027]) = Inl (Error ''exit status 1'')
   \<and> fst (handleFileChange env_exec_fails board_file \<lparr>settings = board_settings, lastDoneContent = []\<rparr>)
       = Inr ()
   \<and> fst (snd (handleFileChange env_exec_fails board_file \<lparr>settings = board_settings, lastDoneContent = []\<rparr>))
       = \<lparr>settings = board_settings, lastDoneContent = []\<rparr>
   \<and> snd (snd (handleFileChange env_exec_fails board_file \<lparr>settings = board_settings, lastDoneContent = []\<rparr>))
       = [VaultRead board_file,
          CallRunAppleScript (js ''say input'') (Some \<lparr>title = js ''C'', content = js ''C''\<rparr>),
          ExecAsync
            (js ''osascript -e '' @ [0x0027]
             @ compose_script board_settings (js ''say input'')
                 (Some \<lparr>title = js ''C'', content = js ''C''\<rparr>)
             @ [0x0027]),
          ConsoleError ''Error executing AppleScript:'' (Error ''exit status 1''),
          ConsoleError ''Error processing file change:'' (Error ''exit status 1'')]"
proof -
  let ?p = "\<lparr>settings = board_settings, lastDoneContent = []\<rparr>"
  let ?ev = "\<lparr>title = title (last (extractDoneSection board_text)),
             content = title (last (extractDoneSection board_text))\<rparr>"
  have 1: "path board_file \<in> set (targetFiles (settings ?p))"
    by (simp add: sample_defs js_def)
  have 2: "vault_read env_ok board_file = Inr board_text"
    by (simp add: env_ok_def)
  have 3: "\<not> isl (fst (runAppleScript env_ok ?p (defaultScript (settings ?p)) (Some ?ev)))"
    by (simp add: runAppleScript_def env_ok_def Let_def)
  have ok: "fst (handleFileChange env_ok board_file ?p) = Inr ()
      \<and> lastDoneContent (fst (snd (handleFileChange env_ok board_file ?p)))
        = [\<lparr>title = js ''A''\<rparr>, \<lparr>title = js ''B''\<rparr>, \<lparr>title = js ''C''\<rparr>]"
    using state_overwritten_unless_dispatch_fails [OF 1 2] 3
    by (simp add: board_text_extract)
  have 4: "vault_read env_exec_fails board_file = Inr board_text"
    by (simp add: env_exec_fails_def)
  have 5: "length (lastDoneContent ?p) < length (extractDoneSection board_text)"
    by (simp add: board_text_extract)
  have 6: "execAsync env_exec_fails c = Inl (Error ''exit status 1'')" for c
    by (simp add: env_exec_fails_def)
  have 7: "isl (fst (runAppleScript env_exec_fails ?p (defaultScript (settings ?p)) (Some ?ev)))"
    by (simp add: runAppleScript_def env_exec_fails_def Let_def)
  have ev: "?ev = \<lparr>title = js ''C'', content = js ''C''\<rparr>"
    by (simp add: board_text_extract)
  have script: "defaultScript board_settings = js ''say input''"
    by (simp add: sample_defs)
  have fails: "fst (handleFileChange env_exec_fails board_file ?p) = Inr ()
      \<and> fst (snd (handleFileChange env_exec_fails board_file ?p)) = ?p
      \<and> snd (snd (handleFileChange env_exec_fails board_file ?p))
        = [VaultRead board_file,
           CallRunAppleScript (js ''say input'') (Some \<lparr>title = js ''C'', content = js ''C''\<rparr>),
           ExecAsync
             (js ''osascript -e '' @ [0x0027]
              @ compose_script board_settings (js ''say input'')
                  (Some \<lparr>title = js ''C'', content = js ''C''\<rparr>)
              @ [0x0027]),
           ConsoleError ''Error executing AppleScript:'' (Error ''exit status 1''),
           ConsoleError ''Error processing file change:'' (Error ''exit status 1'')]"
    using state_overwritten_unless_dispatch_fails [OF 1 4] 5 6 7
    unfolding ev by (simp add: script)
  show ?thesis
    using 1 2 4 5 6 ok fails by simp
qed

text \<open>
  The claim as stated fails when the command fails: the stored sequence is still empty
  after the event, although three records were extracted.
\<close>

theorem failed_dispatch_keeps_state_counterexample:
  "path board_file \<in> set (targetFiles board_settings)
   \<and> vault_read env_exec_fails board_file = Inr board_text
   \<and> extractDoneSection board_text = [\<lparr>title = js ''A''\<rparr>, \<lparr>title = js ''B''\<rparr>, \<lparr>title = js ''C''\<rparr>]
   \<and> lastDoneContent (fst (snd (handleFileChange env_exec_fails board_file
        \<lparr>settings = board_settings, lastDoneContent = []\<rparr>))) = []
   \<and> lastDoneContent (fst (snd (handleFileChange env_exec_fails board_file
        \<lparr>settings = board_settings, lastDoneContent = []\<rparr>))) \<noteq> extractDoneSection board_text"
proof -
  let ?p = "\<lparr>settings = board_settings, lastDoneContent = []\<rparr>"
  have 1: "path board_file \<in> set (targetFiles (settings ?p))"
    by (simp add: sample_defs js_def)
  have 2: "vault_read env_exec_fails board_file = Inr board_text"
    by (simp add: env_exec_fails_def)
  have 3: "length (lastDoneContent ?p) < length (extractDoneSection board_text)"
    by (simp add: board_text_extract)
  have "fst (runAppleScript env_exec_fails ?p (defaultScript (settings ?p))
             (Some \<lparr>title = title (last (extractDoneSection board_text)),
                    content = title (last (extractDoneSection board_text))\<rparr>))
        = Inl (Error ''exit status 1'')"
    by (simp add: runAppleScript_def env_exec_fails_def Let_def)
  then have "fst (snd (try_block env_exec_fails board_file ?p)) = ?p"
    unfolding try_block_growth [OF 2 3] by (auto split: prod.splits sum.splits)
  then have "fst (snd (handleFileChange env_exec_fails board_file ?p)) = ?p"
    using 1 by (simp add: handler_state)
  then show ?thesis
    using 1 2 by (simp add: board_text_extract)
qed

text \<open>
  C4. When the read of a monitored file fails, the handler returns normally, the plugin's
  state is the one before the event, nothing is dispatched and no command is run; the
  error is logged once.
\<close>

theorem read_failure_leaves_state:
  assumes "path file \<in> set (targetFiles (settings p))"
    and "vault_read e file = Inl err"
  shows "handleFileChange e file p
           = (Inr (), p, [VaultRead file, ConsoleError ''Error processing file change:'' err])
         \<and> dispatches (snd (snd (handleFileChange e file p))) = []
         \<and> execs (snd (snd (handleFileChange e file p))) = []"
  using assms
  by (simp add: handleFileChange_def try_block_read_fails dispatches_def execs_def)

theorem read_failure_leaves_state_witness:
  "path board_file \<in> set (targetFiles board_settings)
   \<and> vault_read env_read_fails board_file = Inl (Error ''ENOENT'')
   \<and> handleFileChange env_read_fails board_file
        \<lparr>settings = board_settings, lastDoneContent = [\<lparr>title = js ''A''\<rparr>]\<rparr>
       = (Inr (), \<lparr>settings = board_settings, lastDoneContent = [\<lparr>title = js ''A''\<rparr>]\<rparr>,
          [VaultRead board_file, ConsoleError ''Error processing file change:'' (Error ''ENOENT'')])"
proof -
  let ?p = "\<lparr>settings = board_settings, lastDoneContent = [\<lparr>title = js ''A''\<rparr>]\<rparr>"
  have 1: "path board_file \<in> set (targetFiles (settings ?p))"
    by (simp add: sample_defs js_def)
  have 2: "vault_read env_read_fails board_file = Inl (Error ''ENOENT'')"
    by (simp add: env_read_fails_def)
  show ?thesis
    using read_failure_leaves_state [OF 1 2] 1 2 by simp
qed

text \<open>
  C9. On a monitored file whose read succeeds, when the extracted sequence is not longer
  than the stored one, nothing is dispatched and no command is run, and the stored
  sequence is replaced by the extracted one.
\<close>

theorem no_growth_no_dispatch:
  assumes "path file \<in> set (targetFiles (settings p))"
    and "vault_read e file = Inr doc"
    and "length (extractDoneSection doc) \<le> length (lastDoneContent p)"
  shows "handleFileChange e file p
           = (Inr (), p\<lparr>lastDoneContent := extractDoneSection doc\<rparr>, [VaultRead file])
         \<and> dispatches (snd (snd (handleFileChange e file p))) = []
         \<and> execs (snd (snd (handleFileChange e file p))) = []"
  using assms
  by (simp add: handleFileChange_def try_block_no_growth dispatches_def execs_def)

theorem no_growth_no_dispatch_witness:
  "path board_file \<in> set (targetFiles board_settings)
   \<and> vault_read env_ok board_file = Inr board_text
   \<and> length (extractDoneSection board_text)
       \<le> length [\<lparr>title = js ''C''\<rparr>, \<lparr>title = js ''B''\<rparr>, \<lparr>title = js ''A''\<rparr>]
   \<and> handleFileChange env_ok board_file
        \<lparr>settings = board_settings,
         lastDoneContent = [\<lparr>title = js ''C''\<rparr>, \<lparr>title = js ''B''\<rparr>, \<lparr>title = js ''A''\<rparr>]\<rparr>
       = (Inr (),
          \<lparr>settings = board_settings,
           lastDoneContent = [\<lparr>title = js ''A''\<rparr>, \<lparr>title = js ''B''\<rparr>, \<lparr>title = js ''C''\<rparr>]\<rparr>,
          [VaultRead board_file])"
proof -
  let ?p = "\<lparr>settings = board_settings,
         lastDoneContent = [\<lparr>title = js ''C''\<rparr>, \<lparr>title = js ''B''\<rparr>, \<lparr>title = js ''A''\<rparr>]\<rparr>"
  have 1: "path board_file \<in> set (targetFiles (settings ?p))"
    by (simp add: sample_defs js_def)
  have 2: "vault_read env_ok board_file = Inr board_text"
    by (simp add: env_ok_def)
  have 3: "length (extractDoneSection board_text) \<le> length (lastDoneContent ?p)"
    by (simp add: board_text_extract)
  show ?thesis
    using no_growth_no_dispatch [OF 1 2 3] 1 2 3 by (simp add: board_text_extract)
qed

text \<open>
  C10. For a file whose path is not one of the target files (equality of strings), the
  handler does nothing: it returns normally, the state is unchanged, and there is no
  effect at all, so no read, no dispatch and no log entry.
\<close>

theorem unmonitored_file_is_noop:
  assumes "path file \<notin> set (targetFiles (settings p))"
  shows "handleFileChange e file p = (Inr (), p, [])"
  using assms by (simp add: handleFileChange_def)

theorem unmonitored_file_is_noop_witness:
  "path \<lparr>path = js ''Board.md''\<rparr> \<notin> set (targetFiles board_settings)
   \<and> handleFileChange env_ok \<lparr>path = js ''Board.md''\<rparr> \<lparr>settings = board_settings, lastDoneContent = []\<rparr>
       = (Inr (), \<lparr>settings = board_settings, lastDoneContent = []\<rparr>, [])"
proof -
  let ?p = "\<lparr>settings = board_settings, lastDoneContent = []\<rparr>"
  have 1: "path \<lparr>path = js ''Board.md''\<rparr> \<notin> set (targetFiles (settings ?p))"
    by (simp add: sample_defs js_def)
  show ?thesis
    using unmonitored_file_is_noop [OF 1] 1 by simp
qed

section \<open>Script composition\<close>

text \<open>
  C8. With a payload, the composed script is the line that sets \<open>input\<close> to the record
  of the calendar name, the title and the content, each copied between double quotes as
  it is, then a newline, then the script unchanged. For the script \<open>say input\<close>, the
  payload with title and content \<open>Buy milk\<close> and the label \<open>Logs\<close> this is the text
  of the second equation.
\<close>

theorem composed_script_text:
  \<open>compose_script st script (Some ev)
     = js ''set input to {calendarName:"'' @ calendarName st @ js ''", summary:"'' @ title ev
         @ js ''", description:"'' @ content ev @ js ''"}'' @ [0x000A] @ script
   \<and> compose_script DEFAULT_SETTINGS (js ''say input'')
         (Some \<lparr>title = js ''Buy milk'', content = js ''Buy milk''\<rparr>)
     = js ''set input to {calendarName:"Logs", summary:"Buy milk", description:"Buy milk"}''
         @ [0x000A] @ js ''say input''\<close>
  by (simp add: compose_script_def DEFAULT_SETTINGS_def js_def)

end
